theory Spec2Isabelle
  imports Main "HOL-Library.Sublist"
begin

section \<open>The trial-count filter of \<open>workflows/base.py\<close>\<close>

text \<open>
  \<open>_check_bs_len\<close> receives a Python list of file paths, reads the shape of the image
  behind every path, logs warnings and overwrites the list in place. The model makes the
  three effects explicit:
  \<^item> the file system is a function from a path to the shape of the image stored there,
    \<open>None\<close> where \<open>nib.load\<close> raises;
  \<^item> list objects live in a store indexed by references, so that the slice assignment
    \<open>beta_series_list[:] = ...\<close> is an update of the object the caller holds;
  \<^item> the root logger is the list of the warnings emitted so far, oldest first.
  Exceptions are values of the type \<open>error\<close>. The specification names the
  \<open>RuntimeError\<close> of the empty result PreconditionFailure and the failure of a read
  ArtifactReadError; an \<open>IndexError\<close> is what \<open>shape[-1]\<close> raises on an image
  without dimensions.
\<close>

subsection \<open>Data\<close>

type_synonym path = string

type_synonym shape = "int list"

type_synonym filesystem = "path \<Rightarrow> shape option"

type_synonym ref = nat

datatype error =
    ArtifactReadError path
  | IndexError
  | RuntimeError string

record state =
  heap :: "ref \<Rightarrow> path list"
  log :: "string list"

subsection \<open>\<open>str.format\<close> of an integer\<close>

fun digits :: "nat \<Rightarrow> string" where
  "digits n =
     (if n < 10 then [''0123456789'' ! n]
      else digits (n div 10) @ [''0123456789'' ! (n mod 10)])"

declare digits.simps [simp del]

definition format_int :: "int \<Rightarrow> string" where
  "format_int i = (if i < 0 then CHR ''-'' # digits (nat (- i)) else digits (nat i))"

subsection \<open>The regular expression \<open>.*desc-(?P<trial_type>[0-9A-Za-z]+)_.*\<close>\<close>

text \<open>
  \<open>re.match\<close> anchors the pattern at the start of the string and searches by
  backtracking. The leading \<open>.*\<close> is greedy: it first takes every character up to the
  first newline (\<open>.\<close> does not match a newline) and gives characters back one at a time
  until the rest of the pattern matches. The group \<open>[0-9A-Za-z]+\<close> is greedy in the same
  way and keeps at least one character. The trailing \<open>.*\<close> matches the empty string, so
  it never fails and is left out. The value is the text of the group \<open>trial_type\<close>,
  \<open>None\<close> when there is no match.

  Characters of the model are bytes. A code point outside ASCII is a run of bytes above
  127 in UTF-8: none of them is a newline, a letter or a digit of the class, so matching
  on bytes agrees with matching on code points.
\<close>

definition is_alnum :: "char \<Rightarrow> bool" where
  "is_alnum c =
     (let n = (of_char c :: nat)
      in (48 \<le> n \<and> n \<le> 57) \<or> (65 \<le> n \<and> n \<le> 90) \<or> (97 \<le> n \<and> n \<le> 122))"

definition newline :: char where
  "newline = CHR 0x0A"

definition literal_desc :: "string \<Rightarrow> string option" where
  "literal_desc t = (if take 5 t = ''desc-'' then Some (drop 5 t) else None)"

fun group_then_underscore :: "nat \<Rightarrow> string \<Rightarrow> string option" where
  "group_then_underscore 0 u = None"
| "group_then_underscore (Suc j) u =
     (if take 1 (drop (Suc j) u) = ''_'' then Some (take (Suc j) u)
      else group_then_underscore j u)"

definition match_from :: "string \<Rightarrow> string option" where
  "match_from t =
     (case literal_desc t of
        None \<Rightarrow> None
      | Some u \<Rightarrow> group_then_underscore (length (takeWhile is_alnum u)) u)"

fun leading_dotstar :: "nat \<Rightarrow> string \<Rightarrow> string option" where
  "leading_dotstar 0 s = match_from s"
| "leading_dotstar (Suc i) s =
     (case match_from (drop (Suc i) s) of
        Some l \<Rightarrow> Some l
      | None \<Rightarrow> leading_dotstar i s)"

definition re_match_trial_type :: "string \<Rightarrow> string option" where
  "re_match_trial_type s =
     leading_dotstar (length (takeWhile (\<lambda>c. c \<noteq> newline) s)) s"

subsection \<open>\<open>check_beta_series\<close>\<close>

text \<open>
  \<open>nib.load(beta_series).shape[-1]\<close>: the load may raise, and the last entry of an empty
  shape tuple is an \<open>IndexError\<close>.
\<close>

definition load_size :: "filesystem \<Rightarrow> path \<Rightarrow> error + int" where
  "load_size fs beta_series =
     (case fs beta_series of
        None \<Rightarrow> Inl (ArtifactReadError beta_series)
      | Some shp \<Rightarrow> (if shp = [] then Inl IndexError else Inr (last shp)))"

definition unknown_trial_type_msg :: "path \<Rightarrow> string" where
  "unknown_trial_type_msg beta_series =
     ''this file: '' @ beta_series @ '' contains an unknown trial_type''"

definition too_few_trials_msg :: "int \<Rightarrow> string \<Rightarrow> int \<Rightarrow> string" where
  "too_few_trials_msg min_size trial_type num =
     ''At least '' @ format_int min_size @ '' trials are needed ''
       @ ''for a beta series: '' @ trial_type @ '' has '' @ format_int num"

definition check_beta_series ::
  "filesystem \<Rightarrow> path \<Rightarrow> int \<Rightarrow> string list \<Rightarrow> (error + bool) \<times> string list" where
  "check_beta_series fs beta_series min_size lg =
     (case load_size fs beta_series of
        Inl e \<Rightarrow> (Inl e, lg)
      | Inr sz \<Rightarrow>
          if sz < min_size then
            (case re_match_trial_type beta_series of
               Some trial_type \<Rightarrow>
                 (Inr False, lg @ [too_few_trials_msg min_size trial_type sz])
             | None \<Rightarrow>
                 (Inr False,
                  lg @ [unknown_trial_type_msg beta_series,
                        too_few_trials_msg min_size ''UNKNOWN'' sz]))
          else (Inr True, lg))"

subsection \<open>\<open>_check_bs_len\<close>\<close>

text \<open>
  The list comprehension visits the paths in order. An exception of a load leaves the
  comprehension before the slice assignment, with the warnings logged so far.
\<close>

fun comprehension ::
  "filesystem \<Rightarrow> int \<Rightarrow> path list \<Rightarrow> string list \<Rightarrow> (error + path list) \<times> string list" where
  "comprehension fs min_size [] lg = (Inr [], lg)"
| "comprehension fs min_size (bs # rest) lg =
     (case check_beta_series fs bs min_size lg of
        (Inl e, lg') \<Rightarrow> (Inl e, lg')
      | (Inr keep, lg') \<Rightarrow>
          (case comprehension fs min_size rest lg' of
             (Inl e, lg'') \<Rightarrow> (Inl e, lg'')
           | (Inr kept, lg'') \<Rightarrow> (Inr (if keep then bs # kept else kept), lg'')))"

definition min_size :: int where
  "min_size = 3"

definition none_msg :: string where
  "none_msg = ''None of the beta series have at least '' @ format_int min_size @ '' betas.''"

definition check_bs_len :: "filesystem \<Rightarrow> ref \<Rightarrow> state \<Rightarrow> (error + ref) \<times> state" where
  "check_bs_len fs beta_series_list st =
     (case comprehension fs min_size (heap st beta_series_list) (log st) of
        (Inl e, lg) \<Rightarrow> (Inl e, st\<lparr>log := lg\<rparr>)
      | (Inr kept, lg) \<Rightarrow>
          (let st' = st\<lparr>heap := (heap st)(beta_series_list := kept), log := lg\<rparr>
           in if kept = [] then (Inl (RuntimeError none_msg), st')
              else (Inr beta_series_list, st')))"

subsection \<open>Vocabulary of the properties\<close>

text \<open>
  The trial count of an artifact is what \<open>load_size\<close> reads, so the properties speak of
  \<open>load_size fs p = Inr n\<close>. An artifact is readable when the read does not raise; it
  meets the minimum when the test \<open>size < min_size\<close> of the source is false for it.
  \<open>emitted\<close> is the list of warnings that one call of \<open>check_beta_series\<close> appends.
\<close>

definition readable :: "filesystem \<Rightarrow> path \<Rightarrow> bool" where
  "readable fs p = (case load_size fs p of Inl e \<Rightarrow> False | Inr n \<Rightarrow> True)"

definition meets_min :: "filesystem \<Rightarrow> path \<Rightarrow> bool" where
  "meets_min fs p = (case load_size fs p of Inl e \<Rightarrow> False | Inr n \<Rightarrow> \<not> n < min_size)"

definition below_min :: "filesystem \<Rightarrow> path \<Rightarrow> bool" where
  "below_min fs p = (case load_size fs p of Inl e \<Rightarrow> False | Inr n \<Rightarrow> n < min_size)"

definition emitted :: "filesystem \<Rightarrow> path \<Rightarrow> string list" where
  "emitted fs p = snd (check_beta_series fs p min_size [])"

text \<open>
  A \<open>desc-<label>_\<close> segment, in the words of the pattern: the text starts with
  \<open>desc-\<close>, then the label, one or more letters or digits, then an underscore.
\<close>

definition is_segment :: "string \<Rightarrow> string \<Rightarrow> bool" where
  "is_segment t l =
     (l \<noteq> [] \<and> list_all is_alnum l \<and> take (6 + length l) t = ''desc-'' @ l @ ''_'')"

definition first_line :: "string \<Rightarrow> nat" where
  "first_line s = length (takeWhile (\<lambda>c. c \<noteq> newline) s)"

section \<open>Workflow assembly: \<open>init_single_subject_wf\<close>\<close>

text \<open>
  The function builds a nipype workflow. A node belongs to the workflow once
  \<open>workflow.connect\<close> has been given a connection that starts or ends at it: \<open>connect\<close>
  adds both ends of every connection to the graph, then the edges between their fields.
  A node object that is constructed but never handed to \<open>connect\<close> is not part of the
  workflow that the function returns, and the execution engine never sees it.
  The nodes carry the names of the variables of the source. The parameters that only
  configure the inside of a node (\<open>estimator\<close>, \<open>hrf_model\<close>, \<open>output_dir\<close>, ...) do not
  reach the shape of the graph and are left out. \<open>atlas_img\<close> and \<open>atlas_lut\<close> are a
  string or \<open>None\<close>; the source tests them by truth value, so \<open>None\<close> and the empty
  string both count as absent.
\<close>

datatype node =
    input_node
  | output_node
  | betaseries_wf
  | correlation_wf
  | ds_correlation_matrix
  | ds_correlation_fig
  | ds_betaseries_file
  | check_beta_series_list
  | censor_volumes
  | ds_residual_file

type_synonym edge = "node \<times> string \<times> node \<times> string"

record workflow =
  wf_nodes :: "node list"
  wf_edges :: "edge list"
  wf_inputs :: "(node \<times> string \<times> string option) list"

definition add_node :: "node \<Rightarrow> node list \<Rightarrow> node list" where
  "add_node n ns = (if n \<in> set ns then ns else ns @ [n])"

definition connect1 :: "node \<Rightarrow> node \<Rightarrow> (string \<times> string) list \<Rightarrow> workflow \<Rightarrow> workflow" where
  "connect1 src dst pairs flow =
     flow\<lparr>wf_nodes := add_node dst (add_node src (wf_nodes flow)),
        wf_edges := wf_edges flow @ map (\<lambda>(sf, df). (src, sf, dst, df)) pairs\<rparr>"

fun connect :: "(node \<times> node \<times> (string \<times> string) list) list \<Rightarrow> workflow \<Rightarrow> workflow" where
  "connect [] flow = flow"
| "connect ((src, dst, pairs) # cs) flow = connect cs (connect1 src dst pairs flow)"

definition truthy :: "string option \<Rightarrow> bool" where
  "truthy v = (case v of None \<Rightarrow> False | Some s \<Rightarrow> s \<noteq> [])"

definition init_single_subject_wf :: "string option \<Rightarrow> string option \<Rightarrow> bool \<Rightarrow> workflow" where
  "init_single_subject_wf atlas_img atlas_lut return_residuals =
     (let wf0 = \<lparr>wf_nodes = [], wf_edges = [], wf_inputs = []\<rparr>;
          wf1 = connect
            [(input_node, betaseries_wf,
                [(''preproc_img'', ''input_node.bold_file''),
                 (''events_tsv'', ''input_node.events_file''),
                 (''brainmask'', ''input_node.bold_mask_file''),
                 (''confound_tsv'', ''input_node.confounds_file''),
                 (''bold_metadata'', ''input_node.bold_metadata'')]),
             (betaseries_wf, output_node,
                [(''output_node.betaseries_files'', ''betaseries_file'')]),
             (input_node, ds_betaseries_file, [(''preproc_img'', ''source_file'')]),
             (output_node, ds_betaseries_file, [(''betaseries_file'', ''in_file'')])]
            wf0;
          wf2 =
            (if truthy atlas_img \<and> truthy atlas_lut then
               connect
                 [(input_node, censor_volumes,
                     [(''brainmask'', ''mask_file'')]),
                  (betaseries_wf, censor_volumes,
                     [(''output_node.betaseries_files'', ''timeseries_file'')]),
                  (censor_volumes, check_beta_series_list,
                     [(''censored_file'', ''beta_series_list'')]),
                  (check_beta_series_list, correlation_wf,
                     [(''beta_series_list'', ''input_node.betaseries_files'')]),
                  (input_node, correlation_wf,
                     [(''atlas_img'', ''input_node.atlas_file''),
                      (''atlas_lut'', ''input_node.atlas_lut'')]),
                  (correlation_wf, output_node,
                     [(''output_node.correlation_matrix'', ''correlation_matrix''),
                      (''output_node.correlation_fig'', ''correlation_fig'')]),
                  (input_node, ds_correlation_matrix, [(''preproc_img'', ''source_file'')]),
                  (output_node, ds_correlation_matrix, [(''correlation_matrix'', ''in_file'')]),
                  (input_node, ds_correlation_fig, [(''preproc_img'', ''source_file'')]),
                  (output_node, ds_correlation_fig, [(''correlation_fig'', ''in_file'')])]
                 (wf1\<lparr>wf_inputs := [(input_node, ''atlas_img'', atlas_img),
                                     (input_node, ''atlas_lut'', atlas_lut)]\<rparr>)
             else wf1);
          wf3 =
            (if return_residuals then
               connect
                 [(betaseries_wf, output_node,
                     [(''output_node.residual_file'', ''residual_file'')]),
                  (output_node, ds_residual_file,
                     [(''residual_file'', ''in_file'')]),
                  (input_node, ds_residual_file,
                     [(''preproc_img'', ''source_file'')])]
                 wf2
             else wf2)
      in wf3)"

text \<open>
  The node objects that one call constructs, in the order of the source. The
  constructors of \<open>input_node\<close>, \<open>output_node\<close>, \<open>betaseries_wf\<close>, \<open>correlation_wf\<close>,
  \<open>ds_correlation_matrix\<close>, \<open>ds_correlation_fig\<close> and \<open>ds_betaseries_file\<close> stand before
  any test (lines 304 to 350); \<open>check_beta_series_list\<close> and \<open>censor_volumes\<close> are
  constructed inside \<open>if atlas_img and atlas_lut\<close> (lines 371 and 376), and
  \<open>ds_residual_file\<close> inside \<open>if return_residuals\<close> (line 402).
\<close>

definition built_nodes :: "string option \<Rightarrow> string option \<Rightarrow> bool \<Rightarrow> node list" where
  "built_nodes atlas_img atlas_lut return_residuals =
     [input_node, output_node, betaseries_wf, correlation_wf,
      ds_correlation_matrix, ds_correlation_fig, ds_betaseries_file]
     @ (if truthy atlas_img \<and> truthy atlas_lut
        then [check_beta_series_list, censor_volumes] else [])
     @ (if return_residuals then [ds_residual_file] else [])"

definition is_built :: "node \<Rightarrow> node list \<Rightarrow> bool" where
  "is_built n built = (n \<in> set built)"

definition in_workflow :: "node \<Rightarrow> workflow \<Rightarrow> bool" where
  "in_workflow n flow = (n \<in> set (wf_nodes flow))"

definition connected :: "node \<Rightarrow> workflow \<Rightarrow> bool" where
  "connected n flow = list_ex (\<lambda>(src, sf, dst, df). src = n \<or> dst = n) (wf_edges flow)"

definition has_edge :: "edge \<Rightarrow> workflow \<Rightarrow> bool" where
  "has_edge e flow = (e \<in> set (wf_edges flow))"

section \<open>Concrete inputs\<close>

definition example_fs :: filesystem where
  "example_fs p =
     (if p = ''sub-01_desc-FACES_betaseries.nii.gz'' then Some [64, 64, 30, 2]
      else if p = ''sub-01_betaseries_x.nii.gz'' then Some [64, 64, 30, 1]
      else if p = ''sub-01_desc-HOUSES_betaseries.nii.gz'' then Some [64, 64, 30, 5]
      else if p = ''sub-01_betaseries_y.nii.gz'' then Some [64, 64, 30, 7]
      else None)"

definition state_of :: "path list \<Rightarrow> state" where
  "state_of xs = \<lparr>heap = (\<lambda>r. if r = 0 then xs else [''other'']), log = []\<rparr>"

definition mixed_list :: "path list" where
  "mixed_list =
     [''sub-01_desc-FACES_betaseries.nii.gz'',
      ''sub-01_desc-HOUSES_betaseries.nii.gz'',
      ''sub-01_betaseries_x.nii.gz'',
      ''sub-01_betaseries_y.nii.gz'']"

definition short_list :: "path list" where
  "short_list = [''sub-01_desc-FACES_betaseries.nii.gz'', ''sub-01_betaseries_x.nii.gz'']"

definition long_list :: "path list" where
  "long_list = [''sub-01_desc-HOUSES_betaseries.nii.gz'', ''sub-01_betaseries_y.nii.gz'']"

definition nested_path :: string where
  "nested_path = ''/out/desc-DIR_x/sub-01_desc-A1_desc-b2_bs.nii''"

definition directory_path :: string where
  "directory_path = ''/out/desc-DIR_x/sub-01_bs.nii''"

definition two_line_path :: string where
  "two_line_path = ''desc-A_'' @ [newline] @ ''desc-B_.nii''"

definition two_line_fs :: filesystem where
  "two_line_fs p = (if p = two_line_path then Some [64, 64, 30, 2] else None)"

definition unreadable_list :: "path list" where
  "unreadable_list = [''garbage.nii'', ''sub-01_desc-FACES_betaseries.nii.gz'']"

section \<open>What one call of the filter does\<close>

subsection \<open>One artifact\<close>

lemma check_beta_series_readable:
  "readable fs p \<Longrightarrow>
   check_beta_series fs p min_size lg = (Inr (meets_min fs p), lg @ emitted fs p)"
  by (auto simp: check_beta_series_def readable_def meets_min_def emitted_def
           split: sum.splits option.splits)

lemma check_beta_series_unreadable:
  "\<not> readable fs p \<Longrightarrow>
   check_beta_series fs p m lg = (Inl (projl (load_size fs p)), lg)"
  by (auto simp: check_beta_series_def readable_def split: sum.splits)

lemma check_beta_series_Inr:
  "check_beta_series fs p m lg = (Inr keep, lg') \<Longrightarrow> readable fs p"
  by (auto simp: check_beta_series_def readable_def split: sum.splits)

lemma check_beta_series_readable_ex:
  "readable fs p \<Longrightarrow> \<exists>k l. check_beta_series fs p m lg = (Inr k, l)"
  by (auto simp: check_beta_series_def readable_def split: sum.splits option.splits)

subsection \<open>The comprehension\<close>

lemma comprehension_readable:
  "list_all (readable fs) xs \<Longrightarrow>
   comprehension fs min_size xs lg =
     (Inr (filter (meets_min fs) xs), lg @ concat (map (emitted fs) xs))"
  by (induction xs arbitrary: lg) (simp_all add: check_beta_series_readable)

lemma comprehension_Inr:
  "comprehension fs m xs lg = (Inr kept, lg') \<Longrightarrow> list_all (readable fs) xs"
proof (induction xs arbitrary: lg kept lg')
  case Nil
  then show ?case by simp
next
  case (Cons p xs)
  then show ?case
    by (auto split: prod.splits sum.splits dest: check_beta_series_Inr)
qed

lemma load_size_not_RuntimeError: "load_size fs p \<noteq> Inl (RuntimeError m)"
  by (simp add: load_size_def split: option.splits)

lemma comprehension_Inl:
  "comprehension fs m xs lg = (Inl e, lg') \<Longrightarrow> \<not> list_all (readable fs) xs \<and> e \<noteq> RuntimeError msg"
proof (induction xs arbitrary: lg)
  case Nil
  then show ?case by simp
next
  case (Cons p xs)
  show ?case
  proof (cases "readable fs p")
    case True
    then obtain k l where "check_beta_series fs p m lg = (Inr k, l)"
      using check_beta_series_readable_ex by blast
    with Cons show ?thesis
      by (auto split: prod.splits sum.splits)
  next
    case False
    with Cons.prems show ?thesis
      using load_size_not_RuntimeError [of fs p msg]
      by (auto simp: check_beta_series_unreadable readable_def split: sum.splits)
  qed
qed

subsection \<open>The whole call\<close>

lemma check_bs_len_readable:
  assumes "list_all (readable fs) (heap st r)"
  shows "check_bs_len fs r st =
     (if filter (meets_min fs) (heap st r) = [] then Inl (RuntimeError none_msg) else Inr r,
      st\<lparr>heap := (heap st)(r := filter (meets_min fs) (heap st r)),
         log := log st @ concat (map (emitted fs) (heap st r))\<rparr>)"
  using assms by (simp add: check_bs_len_def comprehension_readable Let_def)

lemma check_bs_len_Inr:
  assumes "check_bs_len fs r st = (Inr r', st')"
  shows "list_all (readable fs) (heap st r)"
proof -
  obtain res lg where c: "comprehension fs min_size (heap st r) (log st) = (res, lg)"
    by (cases "comprehension fs min_size (heap st r) (log st)")
  with assms obtain kept where "res = Inr kept"
    by (cases res) (auto simp: check_bs_len_def)
  with c show ?thesis by (auto dest: comprehension_Inr)
qed

lemma check_bs_len_unreadable:
  assumes "\<not> list_all (readable fs) (heap st r)"
  shows "\<exists>e lg. check_bs_len fs r st = (Inl e, st\<lparr>log := lg\<rparr>) \<and> e \<noteq> RuntimeError none_msg"
proof -
  obtain res lg where c: "comprehension fs min_size (heap st r) (log st) = (res, lg)"
    by (cases "comprehension fs min_size (heap st r) (log st)")
  show ?thesis
  proof (cases res)
    case (Inl e)
    with c show ?thesis
      using comprehension_Inl [of fs min_size "heap st r" "log st" e lg none_msg]
      by (auto simp: check_bs_len_def)
  next
    case (Inr kept)
    with c assms show ?thesis by (auto dest: comprehension_Inr)
  qed
qed

section \<open>What the regular expression matches\<close>

text \<open>
  The backtracking search agrees with the pattern read as a description: the tail of the
  pattern matches at a position exactly when a \<open>desc-<label>_\<close> segment starts there,
  and the leading \<open>.*\<close> settles on the last position of the first line where it does.
\<close>

lemma not_alnum_underscore: "\<not> is_alnum CHR ''_''"
  by (simp add: is_alnum_def)

lemma group_fails:
  "(\<And>k. 0 < k \<Longrightarrow> k \<le> j \<Longrightarrow> take 1 (drop k u) \<noteq> ''_'') \<Longrightarrow> group_then_underscore j u = None"
  by (induction j) simp_all

lemma inside_run_not_underscore:
  assumes "k < length (takeWhile is_alnum u)"
  shows "take 1 (drop k u) \<noteq> ''_''"
proof -
  have len: "k < length u"
    using assms length_takeWhile_le [of is_alnum u] by simp
  have "is_alnum (u ! k)"
    using assms nth_mem [OF assms] takeWhile_nth [OF assms] set_takeWhileD by metis
  moreover have "take 1 (drop k u) = [u ! k]"
    using Cons_nth_drop_Suc [OF len, symmetric] by simp
  ultimately show ?thesis
    using not_alnum_underscore by auto
qed

lemma group_greedy:
  "group_then_underscore (length (takeWhile is_alnum u)) u =
     (if takeWhile is_alnum u \<noteq> [] \<and> take 1 (dropWhile is_alnum u) = ''_''
      then Some (takeWhile is_alnum u) else None)"
proof (cases "length (takeWhile is_alnum u)")
  case 0
  then show ?thesis by simp
next
  case (Suc j)
  have d: "drop (Suc j) u = dropWhile is_alnum u"
    using Suc by (metis dropWhile_eq_drop)
  have t: "take (Suc j) u = takeWhile is_alnum u"
    using Suc by (metis takeWhile_eq_take)
  have ne: "takeWhile is_alnum u \<noteq> []"
    using Suc by auto
  have "group_then_underscore j u = None"
  proof (rule group_fails)
    fix k assume "0 < k" "k \<le> j"
    then have "k < length (takeWhile is_alnum u)" using Suc by simp
    then show "take 1 (drop k u) \<noteq> ''_''" by (rule inside_run_not_underscore)
  qed
  then show ?thesis
    using Suc d t ne by simp
qed

lemma is_segment_split:
  "is_segment t l \<longleftrightarrow>
     l \<noteq> [] \<and> list_all is_alnum l \<and> (\<exists>rest. t = ''desc-'' @ l @ ''_'' @ rest)"
proof -
  have "take (6 + length l) t = ''desc-'' @ l @ ''_'' \<longleftrightarrow> (\<exists>rest. t = ''desc-'' @ l @ ''_'' @ rest)"
  proof
    assume h: "take (6 + length l) t = ''desc-'' @ l @ ''_''"
    have "t = take (6 + length l) t @ drop (6 + length l) t" by simp
    then have "t = ''desc-'' @ l @ ''_'' @ drop (6 + length l) t"
      using h by (metis append.assoc)
    then show "\<exists>rest. t = ''desc-'' @ l @ ''_'' @ rest" ..
  next
    assume "\<exists>rest. t = ''desc-'' @ l @ ''_'' @ rest"
    then obtain rest where r: "t = ''desc-'' @ l @ ''_'' @ rest" ..
    define a where "a = ''desc-'' @ l @ ''_''"
    have "length a = 6 + length l" by (simp add: a_def)
    moreover have "t = a @ rest" using r by (simp add: a_def)
    ultimately have "take (6 + length l) t = a" by (metis append_eq_conv_conj)
    then show "take (6 + length l) t = ''desc-'' @ l @ ''_''" by (simp add: a_def)
  qed
  then show ?thesis by (simp add: is_segment_def)
qed

lemma match_from_segment:
  assumes "l \<noteq> []" "list_all is_alnum l"
  shows "match_from (''desc-'' @ l @ ''_'' @ rest) = Some l"
proof -
  have tw: "takeWhile is_alnum (l @ CHR ''_'' # rest) = l"
    using assms(2) not_alnum_underscore by (simp add: list_all_iff takeWhile_tail)
  have dw: "dropWhile is_alnum (l @ CHR ''_'' # rest) = CHR ''_'' # rest"
    using assms(2) not_alnum_underscore by (simp add: list_all_iff dropWhile_append2)
  have "group_then_underscore (length (takeWhile is_alnum (l @ CHR ''_'' # rest)))
          (l @ CHR ''_'' # rest) = Some l"
    unfolding group_greedy using assms(1) tw dw by simp
  then show ?thesis
    using tw by (simp add: match_from_def literal_desc_def)
qed

lemma match_from_Some:
  assumes "match_from t = Some l"
  shows "is_segment t l"
proof -
  let ?u = "drop 5 t"
  from assms have t5: "take 5 t = ''desc-''"
    by (simp add: match_from_def literal_desc_def split: if_splits)
  with assms have g: "group_then_underscore (length (takeWhile is_alnum ?u)) ?u = Some l"
    by (simp add: match_from_def literal_desc_def)
  then have ne: "takeWhile is_alnum ?u \<noteq> []"
    and us: "take 1 (dropWhile is_alnum ?u) = ''_''"
    and l: "l = takeWhile is_alnum ?u"
    by (simp_all add: group_greedy split: if_splits)
  from us obtain rest where dw: "dropWhile is_alnum ?u = CHR ''_'' # rest"
    by (cases "dropWhile is_alnum ?u") (simp_all split: if_splits)
  have "?u = l @ CHR ''_'' # rest"
    using l dw takeWhile_dropWhile_id [of is_alnum ?u] by simp
  then have "t = ''desc-'' @ l @ ''_'' @ rest"
    using t5 append_take_drop_id [of 5 t] by simp
  moreover have "list_all is_alnum l"
    using l by (auto simp: list_all_iff dest: set_takeWhileD)
  ultimately show ?thesis
    using ne l by (auto simp: is_segment_split)
qed

lemma match_from_iff: "match_from t = Some l \<longleftrightarrow> is_segment t l"
  using match_from_Some match_from_segment by (auto simp: is_segment_split)

lemma leading_dotstar_last:
  "i \<le> k \<Longrightarrow> match_from (drop i s) = Some l \<Longrightarrow>
   (\<And>j. i < j \<Longrightarrow> j \<le> k \<Longrightarrow> match_from (drop j s) = None) \<Longrightarrow>
   leading_dotstar k s = Some l"
proof (induction k)
  case 0
  then show ?case by simp
next
  case (Suc k)
  show ?case
  proof (cases "i = Suc k")
    case True
    with Suc.prems(2) show ?thesis by simp
  next
    case False
    with Suc.prems(1) have "i \<le> k" by simp
    moreover have "match_from (drop (Suc k) s) = None"
      using Suc.prems(3) [of "Suc k"] False Suc.prems(1) by simp
    ultimately show ?thesis
      using Suc by simp
  qed
qed

lemma leading_dotstar_none:
  "(\<And>j. j \<le> k \<Longrightarrow> match_from (drop j s) = None) \<Longrightarrow> leading_dotstar k s = None"
  by (induction k) simp_all

lemma first_line_no_newline: "newline \<notin> set s \<Longrightarrow> first_line s = length s"
proof -
  assume "newline \<notin> set s"
  then have "takeWhile (\<lambda>c. c \<noteq> newline) s = s"
    by (induction s) auto
  then show ?thesis by (simp only: first_line_def)
qed

section \<open>The filter on the concrete inputs\<close>

lemma mixed_readable: "list_all (readable example_fs) (heap (state_of mixed_list) 0)"
  by (simp add: state_of_def mixed_list_def readable_def load_size_def example_fs_def)

lemma mixed_result: "fst (check_bs_len example_fs 0 (state_of mixed_list)) = Inr 0"
  by code_simp

lemma mixed_heap:
  "heap (snd (check_bs_len example_fs 0 (state_of mixed_list))) 0 =
     [''sub-01_desc-HOUSES_betaseries.nii.gz'', ''sub-01_betaseries_y.nii.gz'']"
  by code_simp

lemma mixed_log:
  "log (snd (check_bs_len example_fs 0 (state_of mixed_list))) =
     [''At least 3 trials are needed for a beta series: FACES has 2'',
      ''this file: sub-01_betaseries_x.nii.gz contains an unknown trial_type'',
      ''At least 3 trials are needed for a beta series: UNKNOWN has 1'']"
  by code_simp

section \<open>Properties of the trial-count filter\<close>

text \<open>
  C1. Whenever every artifact of the collection can be read, the collection that
  \<open>_check_bs_len\<close> leaves behind is the input filtered by the test of the source, with
  the minimum 3: an artifact whose trial count is at least 3 is still there, an artifact
  whose trial count is below 3 is gone, and so every artifact left has a trial count of
  at least 3. The call then either returns the collection or raises the
  \<open>RuntimeError\<close> of the empty result.
\<close>

theorem check_bs_len_keeps_exactly_the_long_series:
  assumes "list_all (readable fs) (heap st r)"
    and "check_bs_len fs r st = (res, st')"
  shows "min_size = 3
    \<and> heap st' r = filter (meets_min fs) (heap st r)
    \<and> (\<forall>p n. p \<in> set (heap st r) \<and> load_size fs p = Inr n \<and> 3 \<le> n \<longrightarrow> p \<in> set (heap st' r))
    \<and> (\<forall>p n. load_size fs p = Inr n \<and> n < 3 \<longrightarrow> p \<notin> set (heap st' r))
    \<and> (\<forall>p \<in> set (heap st' r). \<exists>n. load_size fs p = Inr n \<and> 3 \<le> n)
    \<and> (res = Inr r \<or> res = Inl (RuntimeError none_msg))"
proof -
  from assms have h: "heap st' r = filter (meets_min fs) (heap st r)"
    and res: "res = (if filter (meets_min fs) (heap st r) = [] then Inl (RuntimeError none_msg) else Inr r)"
    by (auto simp: check_bs_len_readable)
  have keep: "\<And>p n. load_size fs p = Inr n \<Longrightarrow> 3 \<le> n \<Longrightarrow> meets_min fs p"
    by (simp add: meets_min_def min_size_def)
  have drop: "\<And>p n. load_size fs p = Inr n \<Longrightarrow> n < 3 \<Longrightarrow> \<not> meets_min fs p"
    by (simp add: meets_min_def min_size_def)
  have enough: "\<And>p. meets_min fs p \<Longrightarrow> \<exists>n. load_size fs p = Inr n \<and> 3 \<le> n"
    by (auto simp: meets_min_def min_size_def split: sum.splits)
  show ?thesis
    using h res keep drop enough by (auto simp: min_size_def)
qed

theorem check_bs_len_keeps_exactly_the_long_series_witness:
  "list_all (readable example_fs) (heap (state_of mixed_list) 0)
   \<and> heap (snd (check_bs_len example_fs 0 (state_of mixed_list))) 0
       = filter (meets_min example_fs) (heap (state_of mixed_list) 0)
   \<and> ''sub-01_desc-FACES_betaseries.nii.gz''
       \<notin> set (heap (snd (check_bs_len example_fs 0 (state_of mixed_list))) 0)"
proof -
  have f: "load_size example_fs ''sub-01_desc-FACES_betaseries.nii.gz'' = Inr 2"
    by (simp add: load_size_def example_fs_def)
  note t = check_bs_len_keeps_exactly_the_long_series
      [OF mixed_readable surjective_pairing]
  from t have a: "heap (snd (check_bs_len example_fs 0 (state_of mixed_list))) 0
       = filter (meets_min example_fs) (heap (state_of mixed_list) 0)"
    by (rule conjunct1 [OF conjunct2])
  from t have b: "\<forall>p n. load_size example_fs p = Inr n \<and> n < 3 \<longrightarrow>
       p \<notin> set (heap (snd (check_bs_len example_fs 0 (state_of mixed_list))) 0)"
    by (rule conjunct1 [OF conjunct2 [OF conjunct2 [OF conjunct2]]])
  have c: "''sub-01_desc-FACES_betaseries.nii.gz''
       \<notin> set (heap (snd (check_bs_len example_fs 0 (state_of mixed_list))) 0)"
    using b [rule_format, of "''sub-01_desc-FACES_betaseries.nii.gz''" 2] f by simp
  show ?thesis
    using mixed_readable a c by (intro conjI)
qed

subsection \<open>More concrete runs\<close>

lemma short_result:
  "fst (check_bs_len example_fs 0 (state_of short_list)) =
     Inl (RuntimeError ''None of the beta series have at least 3 betas.'')"
  by code_simp

lemma short_heap: "heap (snd (check_bs_len example_fs 0 (state_of short_list))) 0 = []"
  by code_simp

lemma short_log:
  "log (snd (check_bs_len example_fs 0 (state_of short_list))) =
     [''At least 3 trials are needed for a beta series: FACES has 2'',
      ''this file: sub-01_betaseries_x.nii.gz contains an unknown trial_type'',
      ''At least 3 trials are needed for a beta series: UNKNOWN has 1'']"
  by code_simp

lemma short_below: "list_all (below_min example_fs) (heap (state_of short_list) 0)"
  by code_simp

lemma short_before:
  "heap (state_of short_list) 0 =
     [''sub-01_desc-FACES_betaseries.nii.gz'', ''sub-01_betaseries_x.nii.gz'']
   \<and> log (state_of short_list) = []"
  by (simp add: state_of_def short_list_def)

lemma long_result: "fst (check_bs_len example_fs 0 (state_of long_list)) = Inr 0"
  by code_simp

lemma long_heap:
  "heap (snd (check_bs_len example_fs 0 (state_of long_list))) 0 =
     [''sub-01_desc-HOUSES_betaseries.nii.gz'', ''sub-01_betaseries_y.nii.gz'']"
  by code_simp

lemma long_log: "log (snd (check_bs_len example_fs 0 (state_of long_list))) = []"
  by code_simp

lemma long_meets: "list_all (meets_min example_fs) (heap (state_of long_list) 0)"
  by code_simp

lemma empty_result:
  "fst (check_bs_len example_fs 0 (state_of [])) =
     Inl (RuntimeError ''None of the beta series have at least 3 betas.'')"
  by code_simp

lemma none_msg_text: "none_msg = ''None of the beta series have at least 3 betas.''"
  by code_simp

lemma below_min_readable: "below_min fs p \<Longrightarrow> readable fs p"
  by (simp add: below_min_def readable_def split: sum.splits)

lemma meets_min_readable: "meets_min fs p \<Longrightarrow> readable fs p"
  by (simp add: meets_min_def readable_def split: sum.splits)

lemma below_min_not_meets: "below_min fs p \<Longrightarrow> \<not> meets_min fs p"
  by (simp add: below_min_def meets_min_def split: sum.splits)

lemma emitted_meets_min: "meets_min fs p \<Longrightarrow> emitted fs p = []"
  by (simp add: emitted_def meets_min_def check_beta_series_def split: sum.splits)

text \<open>
  C3. For every input collection, whatever the file system holds, the collection after
  the call is a subsequence of the collection before it: the artifacts that are left
  stand in their original order, and none is repeated or new. On an exception of a load
  the collection is the input itself; otherwise it is what the call returns or, when
  nothing is left, the empty collection.
\<close>

theorem check_bs_len_leaves_a_subsequence:
  "subseq (heap (snd (check_bs_len fs r st)) r) (heap st r)"
proof (cases "list_all (readable fs) (heap st r)")
  case True
  then show ?thesis by (simp add: check_bs_len_readable)
next
  case False
  then obtain e lg where "check_bs_len fs r st = (Inl e, st\<lparr>log := lg\<rparr>)"
    using check_bs_len_unreadable by blast
  then show ?thesis by simp
qed

theorem check_bs_len_leaves_a_subsequence_witness:
  "subseq [''sub-01_desc-HOUSES_betaseries.nii.gz'', ''sub-01_betaseries_y.nii.gz'']
     [''sub-01_desc-FACES_betaseries.nii.gz'', ''sub-01_desc-HOUSES_betaseries.nii.gz'',
      ''sub-01_betaseries_x.nii.gz'', ''sub-01_betaseries_y.nii.gz'']"
  using check_bs_len_leaves_a_subsequence [of example_fs 0 "state_of mixed_list"]
  by (simp only: mixed_heap) (simp add: state_of_def mixed_list_def)

text \<open>
  C8. A successful call returns the very reference it was given, and the list object
  behind that reference has been overwritten in place: it now holds exactly the
  artifacts that meet the minimum, in their original order, and no other object of the
  store has changed.
\<close>

theorem check_bs_len_updates_and_returns_its_argument:
  assumes "check_bs_len fs r st = (Inr r', st')"
  shows "r' = r
    \<and> heap st' = (heap st)(r := filter (meets_min fs) (heap st r))
    \<and> heap st' r' = filter (meets_min fs) (heap st r)"
proof -
  have rd: "list_all (readable fs) (heap st r)"
    using assms by (rule check_bs_len_Inr)
  show ?thesis
    using assms by (auto simp: check_bs_len_readable [OF rd] split: if_splits)
qed

theorem check_bs_len_updates_and_returns_its_argument_witness:
  "check_bs_len example_fs 0 (state_of mixed_list)
     = (Inr 0, snd (check_bs_len example_fs 0 (state_of mixed_list)))
   \<and> heap (snd (check_bs_len example_fs 0 (state_of mixed_list))) 0
     = filter (meets_min example_fs) (heap (state_of mixed_list) 0)"
proof -
  have c: "check_bs_len example_fs 0 (state_of mixed_list)
     = (Inr 0, snd (check_bs_len example_fs 0 (state_of mixed_list)))"
    using mixed_result by (simp add: prod_eq_iff)
  from check_bs_len_updates_and_returns_its_argument [OF c] c show ?thesis by simp
qed

text \<open>
  C2, amended. When every artifact of the collection has a trial count below 3, the call
  raises the \<open>RuntimeError\<close> "None of the beta series have at least 3 betas." and
  returns nothing. It raises this error exactly when every artifact could be read and
  the filtered sequence is empty. The error path is not free of effects: the slice
  assignment comes before the test, so by the time of the raise the collection of the
  caller has been emptied in place and the warnings of the exclusions are in the log.
  Nothing else in the store changes.
\<close>

theorem check_bs_len_raises_iff_nothing_is_left:
  assumes "check_bs_len fs r st = (res, st')"
  shows "(list_all (below_min fs) (heap st r) \<longrightarrow> res = Inl (RuntimeError none_msg))
    \<and> ((res = Inl (RuntimeError none_msg))
         = (list_all (readable fs) (heap st r) \<and> filter (meets_min fs) (heap st r) = []))
    \<and> (res = Inl (RuntimeError none_msg) \<longrightarrow>
         heap st' = (heap st)(r := [])
         \<and> log st' = log st @ concat (map (emitted fs) (heap st r)))
    \<and> none_msg = ''None of the beta series have at least 3 betas.''"
proof -
  let ?xs = "heap st r"
  let ?E = "Inl (RuntimeError none_msg) :: error + ref"
  let ?A = "list_all (below_min fs) ?xs \<longrightarrow> res = ?E"
  let ?B = "(res = ?E) = (list_all (readable fs) ?xs \<and> filter (meets_min fs) ?xs = [])"
  let ?C = "res = ?E \<longrightarrow>
         heap st' = (heap st)(r := []) \<and> log st' = log st @ concat (map (emitted fs) ?xs)"
  have abc: "?A \<and> ?B \<and> ?C"
  proof (cases "list_all (readable fs) ?xs")
    case True
    from assms have res: "res = (if filter (meets_min fs) ?xs = [] then ?E else Inr r)"
      and st': "st' = st\<lparr>heap := (heap st)(r := filter (meets_min fs) ?xs),
                           log := log st @ concat (map (emitted fs) ?xs)\<rparr>"
      by (simp_all add: check_bs_len_readable [OF True])
    have gone: "list_all (below_min fs) ?xs \<longrightarrow> filter (meets_min fs) ?xs = []"
      by (auto simp: list_all_iff filter_empty_conv dest: below_min_not_meets)
    have a: ?A
    proof
      assume "list_all (below_min fs) ?xs"
      with gone have "filter (meets_min fs) ?xs = []" by (rule mp)
      with res show "res = ?E" by simp
    qed
    have b: ?B
      using res True by simp
    have c: ?C
      using res st' by (simp split: if_splits)
    show ?thesis
      using a b c by (intro conjI)
  next
    case False
    then obtain e lg where c: "check_bs_len fs r st = (Inl e, st\<lparr>log := lg\<rparr>)"
      and e: "e \<noteq> RuntimeError none_msg"
      using check_bs_len_unreadable by blast
    from c assms have res: "res = Inl e" by simp
    have nb: "\<not> list_all (below_min fs) ?xs"
      using False by (auto simp: list_all_iff dest: below_min_readable)
    have a: ?A
      using nb by simp
    have b: ?B
      using res e False by simp
    have c: ?C
      using res e by simp
    show ?thesis
      using a b c by (intro conjI)
  qed
  show ?thesis
    using abc none_msg_text by simp
qed

theorem check_bs_len_raises_iff_nothing_is_left_witness:
  "list_all (below_min example_fs) (heap (state_of short_list) 0)
   \<and> fst (check_bs_len example_fs 0 (state_of short_list)) = Inl (RuntimeError none_msg)
   \<and> heap (snd (check_bs_len example_fs 0 (state_of short_list)))
       = (heap (state_of short_list))(0 := [])"
proof -
  note t = check_bs_len_raises_iff_nothing_is_left
    [OF surjective_pairing, where fs = example_fs and r = 0 and st = "state_of short_list"]
  from t short_below
  have a: "fst (check_bs_len example_fs 0 (state_of short_list)) = Inl (RuntimeError none_msg)"
    by blast
  from t a
  have b: "heap (snd (check_bs_len example_fs 0 (state_of short_list)))
       = (heap (state_of short_list))(0 := [])"
    by blast
  show ?thesis using short_below a b by (intro conjI)
qed

text \<open>
  The statement without the amendment asks that the error path change no state. On a
  collection of two short series the call raises, the collection that held two paths is
  empty afterwards, and three warnings have been logged.
\<close>

theorem error_path_changes_the_state_counterexample:
  "list_all (below_min example_fs) (heap (state_of short_list) 0)
   \<and> fst (check_bs_len example_fs 0 (state_of short_list))
       = Inl (RuntimeError ''None of the beta series have at least 3 betas.'')
   \<and> heap (state_of short_list) 0
       = [''sub-01_desc-FACES_betaseries.nii.gz'', ''sub-01_betaseries_x.nii.gz'']
   \<and> heap (snd (check_bs_len example_fs 0 (state_of short_list))) 0 = []
   \<and> log (state_of short_list) = []
   \<and> log (snd (check_bs_len example_fs 0 (state_of short_list)))
       = [''At least 3 trials are needed for a beta series: FACES has 2'',
          ''this file: sub-01_betaseries_x.nii.gz contains an unknown trial_type'',
          ''At least 3 trials are needed for a beta series: UNKNOWN has 1'']
   \<and> snd (check_bs_len example_fs 0 (state_of short_list)) \<noteq> state_of short_list"
proof -
  have "log (snd (check_bs_len example_fs 0 (state_of short_list))) \<noteq> log (state_of short_list)"
    by (simp only: short_log) (simp add: state_of_def)
  then have "snd (check_bs_len example_fs 0 (state_of short_list)) \<noteq> state_of short_list"
    by auto
  then show ?thesis
    using short_below short_result short_heap short_log short_before by simp
qed

lemma check_bs_len_all_meet:
  assumes "heap st r \<noteq> []" "list_all (meets_min fs) (heap st r)"
  shows "check_bs_len fs r st = (Inr r, st)"
proof -
  have rd: "list_all (readable fs) (heap st r)"
    using assms(2) by (auto simp: list_all_iff dest: meets_min_readable)
  have f: "filter (meets_min fs) (heap st r) = heap st r"
    using assms(2) by (simp add: list_all_iff)
  have e: "concat (map (emitted fs) (heap st r)) = []"
    using assms(2) by (auto simp: list_all_iff emitted_meets_min)
  have h: "(heap st)(r := heap st r) = heap st" by auto
  show ?thesis
    using assms(1) by (simp add: check_bs_len_readable [OF rd] f e h)
qed

text \<open>
  C9, amended. On a collection that is not empty and in which every artifact meets the
  minimum, the call returns the collection and leaves the whole state as it was: no
  artifact is removed and no warning is logged. Hence, whenever a call succeeds, a second
  call on its result succeeds with the same reference and the same state.
\<close>

theorem check_bs_len_idempotent:
  "(heap st r \<noteq> [] \<and> list_all (meets_min fs) (heap st r)
      \<longrightarrow> check_bs_len fs r st = (Inr r, st))
   \<and> (check_bs_len fs r st = (Inr r', st')
      \<longrightarrow> check_bs_len fs r' st' = (Inr r', st'))"
proof (intro conjI impI)
  assume "heap st r \<noteq> [] \<and> list_all (meets_min fs) (heap st r)"
  then show "check_bs_len fs r st = (Inr r, st)"
    by (simp add: check_bs_len_all_meet)
next
  assume c: "check_bs_len fs r st = (Inr r', st')"
  have rd: "list_all (readable fs) (heap st r)"
    using c by (rule check_bs_len_Inr)
  from c have r: "r' = r"
    and ne: "filter (meets_min fs) (heap st r) \<noteq> []"
    and h: "heap st' r = filter (meets_min fs) (heap st r)"
    by (auto simp: check_bs_len_readable [OF rd] split: if_splits)
  have "check_bs_len fs r st' = (Inr r, st')"
    by (rule check_bs_len_all_meet) (simp_all add: h ne list_all_iff)
  then show "check_bs_len fs r' st' = (Inr r', st')"
    using r by simp
qed

theorem check_bs_len_idempotent_witness:
  "heap (state_of long_list) 0 \<noteq> []
   \<and> list_all (meets_min example_fs) (heap (state_of long_list) 0)
   \<and> check_bs_len example_fs 0 (state_of long_list) = (Inr 0, state_of long_list)
   \<and> check_bs_len example_fs 0 (state_of mixed_list)
       = (Inr 0, snd (check_bs_len example_fs 0 (state_of mixed_list)))
   \<and> check_bs_len example_fs 0 (snd (check_bs_len example_fs 0 (state_of mixed_list)))
       = (Inr 0, snd (check_bs_len example_fs 0 (state_of mixed_list)))"
proof -
  have ne: "heap (state_of long_list) 0 \<noteq> []"
    by (simp add: state_of_def long_list_def)
  have c: "check_bs_len example_fs 0 (state_of mixed_list)
     = (Inr 0, snd (check_bs_len example_fs 0 (state_of mixed_list)))"
    using mixed_result by (simp add: prod_eq_iff)
  note t1 = check_bs_len_idempotent
    [where st = "state_of long_list" and r = 0 and fs = example_fs,
     THEN conjunct1, rule_format, OF conjI, OF ne long_meets]
  note t2 = check_bs_len_idempotent
    [where st = "state_of mixed_list" and r = 0 and fs = example_fs and r' = 0
       and st' = "snd (check_bs_len example_fs 0 (state_of mixed_list))",
     THEN conjunct2, rule_format, OF c]
  show ?thesis
    using ne long_meets t1 c t2 by (intro conjI)
qed

text \<open>
  The statement without the amendment covers the empty collection, in which every
  artifact meets the minimum because there is none. The call does not return it: it
  raises the \<open>RuntimeError\<close> of the empty result.
\<close>

theorem empty_collection_is_not_returned_counterexample:
  "list_all (meets_min example_fs) (heap (state_of []) 0)
   \<and> fst (check_bs_len example_fs 0 (state_of []))
       = Inl (RuntimeError ''None of the beta series have at least 3 betas.'')"
  using empty_result by (simp add: state_of_def)

section \<open>The warnings\<close>

lemma format_min_size: "format_int min_size = ''3''"
  by code_simp

lemma faces_label:
  "re_match_trial_type ''sub-01_desc-FACES_betaseries.nii.gz'' = Some ''FACES''"
  by code_simp

lemma x_label: "re_match_trial_type ''sub-01_betaseries_x.nii.gz'' = None"
  by code_simp

lemma y_label: "re_match_trial_type ''sub-01_betaseries_y.nii.gz'' = None"
  by code_simp

lemma faces_check:
  "check_beta_series example_fs ''sub-01_desc-FACES_betaseries.nii.gz'' min_size [] =
     (Inr False, [''At least 3 trials are needed for a beta series: FACES has 2''])"
  by code_simp

lemma x_check:
  "check_beta_series example_fs ''sub-01_betaseries_x.nii.gz'' min_size [] =
     (Inr False,
      [''this file: sub-01_betaseries_x.nii.gz contains an unknown trial_type'',
       ''At least 3 trials are needed for a beta series: UNKNOWN has 1''])"
  by code_simp

lemma faces_size: "load_size example_fs ''sub-01_desc-FACES_betaseries.nii.gz'' = Inr 2"
  by (simp add: load_size_def example_fs_def)

lemma x_size: "load_size example_fs ''sub-01_betaseries_x.nii.gz'' = Inr 1"
  by (simp add: load_size_def example_fs_def)

lemma y_size: "load_size example_fs ''sub-01_betaseries_y.nii.gz'' = Inr 7"
  by (simp add: load_size_def example_fs_def)

lemma format_two: "format_int 2 = ''2''"
  by code_simp

lemma check_beta_series_below:
  assumes "load_size fs p = Inr n" "n < min_size"
  shows "check_beta_series fs p min_size lg =
       (Inr False,
        lg @ (case re_match_trial_type p of Some l \<Rightarrow> [] | None \<Rightarrow> [unknown_trial_type_msg p])
           @ [''At least 3 trials are needed for a beta series: ''
               @ (case re_match_trial_type p of Some l \<Rightarrow> l | None \<Rightarrow> ''UNKNOWN'')
               @ '' has '' @ format_int n])"
  using assms
  by (simp add: check_beta_series_def too_few_trials_msg_def format_min_size
           split: option.splits)

text \<open>
  C5. An artifact whose trial count is below the minimum is refused with a warning that
  reads "At least 3 trials are needed for a beta series: <label> has <count>": it holds
  the label, the minimum 3 and the count that was read. The label is the text that the
  pattern extracts from the path when the pattern matches, and \<open>UNKNOWN\<close> when it
  does not; in that case a warning about the unknown trial type comes first. For
  \<open>sub-01_desc-FACES_betaseries.nii.gz\<close> with trailing dimension 2 the label is
  \<open>FACES\<close>, for \<open>sub-01_betaseries_x.nii.gz\<close> with trailing dimension 1 it is
  \<open>UNKNOWN\<close>, and the filter removes both from the collection.
\<close>

theorem exclusion_warning_names_label_minimum_and_count:
  "(load_size fs p = Inr n \<and> n < min_size \<longrightarrow>
      check_beta_series fs p min_size lg =
        (Inr False,
         lg @ (case re_match_trial_type p of Some l \<Rightarrow> [] | None \<Rightarrow> [unknown_trial_type_msg p])
            @ [''At least 3 trials are needed for a beta series: ''
                @ (case re_match_trial_type p of Some l \<Rightarrow> l | None \<Rightarrow> ''UNKNOWN'')
                @ '' has '' @ format_int n]))
   \<and> load_size example_fs ''sub-01_desc-FACES_betaseries.nii.gz'' = Inr 2
   \<and> re_match_trial_type ''sub-01_desc-FACES_betaseries.nii.gz'' = Some ''FACES''
   \<and> check_beta_series example_fs ''sub-01_desc-FACES_betaseries.nii.gz'' min_size [] =
       (Inr False, [''At least 3 trials are needed for a beta series: FACES has 2''])
   \<and> load_size example_fs ''sub-01_betaseries_x.nii.gz'' = Inr 1
   \<and> re_match_trial_type ''sub-01_betaseries_x.nii.gz'' = None
   \<and> check_beta_series example_fs ''sub-01_betaseries_x.nii.gz'' min_size [] =
       (Inr False,
        [''this file: sub-01_betaseries_x.nii.gz contains an unknown trial_type'',
         ''At least 3 trials are needed for a beta series: UNKNOWN has 1''])
   \<and> heap (state_of short_list) 0 =
       [''sub-01_desc-FACES_betaseries.nii.gz'', ''sub-01_betaseries_x.nii.gz'']
   \<and> heap (snd (check_bs_len example_fs 0 (state_of short_list))) 0 = []
   \<and> log (snd (check_bs_len example_fs 0 (state_of short_list))) =
       [''At least 3 trials are needed for a beta series: FACES has 2'',
        ''this file: sub-01_betaseries_x.nii.gz contains an unknown trial_type'',
        ''At least 3 trials are needed for a beta series: UNKNOWN has 1'']"
proof -
  have g: "load_size fs p = Inr n \<and> n < min_size \<longrightarrow>
      check_beta_series fs p min_size lg =
        (Inr False,
         lg @ (case re_match_trial_type p of Some l \<Rightarrow> [] | None \<Rightarrow> [unknown_trial_type_msg p])
            @ [''At least 3 trials are needed for a beta series: ''
                @ (case re_match_trial_type p of Some l \<Rightarrow> l | None \<Rightarrow> ''UNKNOWN'')
                @ '' has '' @ format_int n])"
    using check_beta_series_below by blast
  show ?thesis
    using g faces_size faces_label faces_check x_size x_label x_check
      short_before [THEN conjunct1] short_heap short_log
    by (intro conjI)
qed

theorem exclusion_warning_names_label_minimum_and_count_witness:
  "load_size example_fs ''sub-01_desc-FACES_betaseries.nii.gz'' = Inr 2
   \<and> 2 < min_size
   \<and> check_beta_series example_fs ''sub-01_desc-FACES_betaseries.nii.gz'' min_size [''earlier''] =
       (Inr False,
        [''earlier'', ''At least 3 trials are needed for a beta series: FACES has 2''])"
proof -
  have m: "2 < min_size" by (simp add: min_size_def)
  note t = exclusion_warning_names_label_minimum_and_count
    [where fs = example_fs and p = "''sub-01_desc-FACES_betaseries.nii.gz''" and n = 2
       and lg = "[''earlier'']",
     THEN conjunct1, rule_format, OF conjI, OF faces_size m]
  have "check_beta_series example_fs ''sub-01_desc-FACES_betaseries.nii.gz'' min_size [''earlier''] =
       (Inr False,
        [''earlier'', ''At least 3 trials are needed for a beta series: FACES has 2''])"
    using t by (simp add: faces_label format_two)
  then show ?thesis
    using faces_size m by (intro conjI)
qed

lemma emitted_readable:
  assumes "readable fs p"
  shows "emitted fs p =
     (if below_min fs p then
        (case re_match_trial_type p of
           Some l \<Rightarrow> [too_few_trials_msg 3 l (projr (load_size fs p))]
         | None \<Rightarrow> [unknown_trial_type_msg p,
                     too_few_trials_msg 3 ''UNKNOWN'' (projr (load_size fs p))])
      else [])"
  using assms
  by (auto simp: emitted_def readable_def below_min_def check_beta_series_def min_size_def
           split: sum.splits option.splits)

lemma comprehension_log:
  "snd (comprehension fs min_size xs lg) =
     lg @ concat (map (emitted fs) (takeWhile (readable fs) xs))"
proof (induction xs arbitrary: lg)
  case Nil
  then show ?case by simp
next
  case (Cons p xs)
  show ?case
  proof (cases "readable fs p")
    case True
    then show ?thesis
      using Cons.IH [of "lg @ emitted fs p"]
      by (auto simp: check_beta_series_readable split: prod.splits sum.splits)
  next
    case False
    then show ?thesis
      by (simp add: check_beta_series_unreadable)
  qed
qed

lemma check_bs_len_log:
  "log (snd (check_bs_len fs r st)) = snd (comprehension fs min_size (heap st r) (log st))"
  by (simp add: check_bs_len_def Let_def split: prod.splits sum.splits)

lemma unreadable_log: "log (snd (check_bs_len example_fs 0 (state_of unreadable_list))) = []"
  by code_simp

lemma unreadable_result:
  "fst (check_bs_len example_fs 0 (state_of unreadable_list))
     = Inl (ArtifactReadError ''garbage.nii'')"
  by code_simp

lemma unreadable_prefix: "takeWhile (readable example_fs) (heap (state_of unreadable_list) 0) = []"
  by code_simp

text \<open>
  C6, amended. The source looks at the name of an artifact only inside the branch
  \<open>size < min_size\<close>, and a read that raises ends the call. So the warnings of one
  call are, in the order of the collection and for the artifacts that the call reaches
  (all of them when every image can be read, otherwise those before the first image
  that cannot): for every artifact below the minimum the warning of its exclusion, with
  its label, preceded by the warning about the unknown trial type when its name does
  not match the pattern; and nothing at all for an artifact that is kept, whether its
  name matches or not.
\<close>

theorem warnings_are_exactly_those_of_the_exclusions:
  "log (snd (check_bs_len fs r st)) =
     log st @ concat (map
       (\<lambda>p. if below_min fs p then
               (case re_match_trial_type p of
                  Some l \<Rightarrow> [too_few_trials_msg 3 l (projr (load_size fs p))]
                | None \<Rightarrow> [unknown_trial_type_msg p,
                            too_few_trials_msg 3 ''UNKNOWN'' (projr (load_size fs p))])
             else [])
       (takeWhile (readable fs) (heap st r)))"
proof -
  have lg: "log (snd (check_bs_len fs r st)) =
      log st @ concat (map (emitted fs) (takeWhile (readable fs) (heap st r)))"
    by (simp only: check_bs_len_log comprehension_log)
  have m: "map (emitted fs) (takeWhile (readable fs) (heap st r)) = map
       (\<lambda>p. if below_min fs p then
               (case re_match_trial_type p of
                  Some l \<Rightarrow> [too_few_trials_msg 3 l (projr (load_size fs p))]
                | None \<Rightarrow> [unknown_trial_type_msg p,
                            too_few_trials_msg 3 ''UNKNOWN'' (projr (load_size fs p))])
             else [])
       (takeWhile (readable fs) (heap st r))"
    by (intro map_cong refl emitted_readable) (auto dest: set_takeWhileD)
  show ?thesis
    by (simp only: lg m)
qed

theorem warnings_are_exactly_those_of_the_exclusions_witness:
  "log (state_of mixed_list) @ concat (map
       (\<lambda>p. if below_min example_fs p then
               (case re_match_trial_type p of
                  Some l \<Rightarrow> [too_few_trials_msg 3 l (projr (load_size example_fs p))]
                | None \<Rightarrow> [unknown_trial_type_msg p,
                            too_few_trials_msg 3 ''UNKNOWN'' (projr (load_size example_fs p))])
             else [])
       (takeWhile (readable example_fs) (heap (state_of mixed_list) 0)))
     = [''At least 3 trials are needed for a beta series: FACES has 2'',
        ''this file: sub-01_betaseries_x.nii.gz contains an unknown trial_type'',
        ''At least 3 trials are needed for a beta series: UNKNOWN has 1'']
   \<and> log (state_of unreadable_list) @ concat (map
       (\<lambda>p. if below_min example_fs p then
               (case re_match_trial_type p of
                  Some l \<Rightarrow> [too_few_trials_msg 3 l (projr (load_size example_fs p))]
                | None \<Rightarrow> [unknown_trial_type_msg p,
                            too_few_trials_msg 3 ''UNKNOWN'' (projr (load_size example_fs p))])
             else [])
       (takeWhile (readable example_fs) (heap (state_of unreadable_list) 0)))
     = []"
  using warnings_are_exactly_those_of_the_exclusions [of example_fs 0 "state_of mixed_list"]
    warnings_are_exactly_those_of_the_exclusions [of example_fs 0 "state_of unreadable_list"]
    mixed_log unreadable_log
  by simp

text \<open>
  The statement without the amendment asks for a warning for every name that does not
  match, kept or not. \<open>sub-01_betaseries_y.nii.gz\<close> does not match and has 7 trials:
  it is kept and the log stays empty.
\<close>

theorem retained_unparsable_name_is_not_warned_counterexample:
  "re_match_trial_type ''sub-01_betaseries_y.nii.gz'' = None
   \<and> load_size example_fs ''sub-01_betaseries_y.nii.gz'' = Inr 7
   \<and> fst (check_bs_len example_fs 0 (state_of long_list)) = Inr 0
   \<and> heap (snd (check_bs_len example_fs 0 (state_of long_list))) 0 =
       [''sub-01_desc-HOUSES_betaseries.nii.gz'', ''sub-01_betaseries_y.nii.gz'']
   \<and> log (state_of long_list) = []
   \<and> log (snd (check_bs_len example_fs 0 (state_of long_list))) = []"
  using y_label y_size long_result long_heap long_log by (simp add: state_of_def)

section \<open>Where the label comes from\<close>

lemma directory_label: "re_match_trial_type directory_path = Some ''DIR''"
  by code_simp

lemma nested_label: "re_match_trial_type nested_path = Some ''b2''"
  by code_simp

lemma nested_first_line: "first_line nested_path = 45"
  by code_simp

lemma nested_segments:
  "is_segment (drop 5 nested_path) ''DIR'' \<and> is_segment (drop 23 nested_path) ''A1''
   \<and> is_segment (drop 31 nested_path) ''b2''"
  by code_simp

lemma nested_later: "list_all (\<lambda>j. match_from (drop j nested_path) = None) [32..<46]"
  by code_simp

lemma two_line_label: "re_match_trial_type two_line_path = Some ''A''"
  by code_simp

lemma two_line_segments:
  "is_segment (drop 0 two_line_path) ''A'' \<and> is_segment (drop 8 two_line_path) ''B''"
  by code_simp

lemma re_match_last_segment:
  assumes "i \<le> first_line s" "is_segment (drop i s) l"
    and "\<forall>j lab. i < j \<and> j \<le> first_line s \<longrightarrow> \<not> is_segment (drop j s) lab"
  shows "re_match_trial_type s = Some l"
proof -
  have later: "match_from (drop j s) = None" if "i < j" "j \<le> first_line s" for j
  proof (cases "match_from (drop j s)")
    case None
    then show ?thesis .
  next
    case (Some lab)
    then have "is_segment (drop j s) lab" by (simp add: match_from_iff)
    with assms(3) that show ?thesis by blast
  qed
  have "match_from (drop i s) = Some l"
    using assms(2) by (simp add: match_from_iff)
  then have "leading_dotstar (first_line s) s = Some l"
    using assms(1) later by (intro leading_dotstar_last [where i = i]) auto
  then show ?thesis
    by (simp add: re_match_trial_type_def first_line_def)
qed

lemma re_match_no_segment:
  assumes "\<forall>j lab. j \<le> first_line s \<longrightarrow> \<not> is_segment (drop j s) lab"
  shows "re_match_trial_type s = None"
proof -
  have "match_from (drop j s) = None" if "j \<le> first_line s" for j
  proof (cases "match_from (drop j s)")
    case None
    then show ?thesis .
  next
    case (Some lab)
    then have "is_segment (drop j s) lab" by (simp add: match_from_iff)
    with assms that show ?thesis by blast
  qed
  then have "leading_dotstar (first_line s) s = None"
    by (intro leading_dotstar_none) auto
  then show ?thesis
    by (simp add: re_match_trial_type_def first_line_def)
qed

text \<open>
  C10, amended. The pattern is matched against the whole path string, so a
  \<open>desc-<label>_\<close> segment of a directory component can supply the label. The leading
  wildcard is greedy and does not cross a newline: when segments start at several
  positions of the first line of the path, the label is that of the last of them, and
  when none starts there the pattern does not match. A path without a newline
  character is one line, so there the label is that of the last segment of the whole
  path.
\<close>

theorem label_is_last_segment_of_first_line:
  "(i \<le> first_line s \<and> is_segment (drop i s) l
      \<and> (\<forall>j lab. i < j \<and> j \<le> first_line s \<longrightarrow> \<not> is_segment (drop j s) lab)
      \<longrightarrow> re_match_trial_type s = Some l)
   \<and> ((\<forall>j lab. j \<le> first_line s \<longrightarrow> \<not> is_segment (drop j s) lab)
      \<longrightarrow> re_match_trial_type s = None)
   \<and> (newline \<notin> set s \<longrightarrow> first_line s = length s)
   \<and> re_match_trial_type directory_path = Some ''DIR''
   \<and> re_match_trial_type nested_path = Some ''b2''"
proof -
  have a: "i \<le> first_line s \<and> is_segment (drop i s) l
      \<and> (\<forall>j lab. i < j \<and> j \<le> first_line s \<longrightarrow> \<not> is_segment (drop j s) lab)
      \<longrightarrow> re_match_trial_type s = Some l"
    using re_match_last_segment by blast
  have b: "(\<forall>j lab. j \<le> first_line s \<longrightarrow> \<not> is_segment (drop j s) lab)
      \<longrightarrow> re_match_trial_type s = None"
    using re_match_no_segment by blast
  have c: "newline \<notin> set s \<longrightarrow> first_line s = length s"
    using first_line_no_newline by blast
  show ?thesis
    using a b c directory_label nested_label by (intro conjI)
qed

theorem label_is_last_segment_of_first_line_witness:
  "31 \<le> first_line nested_path
   \<and> is_segment (drop 5 nested_path) ''DIR''
   \<and> is_segment (drop 23 nested_path) ''A1''
   \<and> is_segment (drop 31 nested_path) ''b2''
   \<and> list_all (\<lambda>j. match_from (drop j nested_path) = None) [32..<46]
   \<and> re_match_trial_type nested_path = Some ''b2''"
proof -
  have i: "31 \<le> first_line nested_path"
    by (simp add: nested_first_line)
  have seg: "is_segment (drop 31 nested_path) ''b2''"
    using nested_segments by simp
  have later: "\<forall>j lab. 31 < j \<and> j \<le> first_line nested_path
      \<longrightarrow> \<not> is_segment (drop j nested_path) lab"
  proof (intro allI impI)
    fix j lab
    assume "31 < j \<and> j \<le> first_line nested_path"
    then have "32 \<le> j \<and> j < 46"
      by (simp add: nested_first_line)
    then have "j \<in> set [32..<46]"
      by (simp only: set_upt atLeastLessThan_iff)
    then have "match_from (drop j nested_path) = None"
      using nested_later by (simp only: list_all_iff)
    then show "\<not> is_segment (drop j nested_path) lab"
      by (simp add: match_from_iff [symmetric])
  qed
  have "re_match_trial_type nested_path = Some ''b2''"
    using label_is_last_segment_of_first_line
      [where i = 31 and s = nested_path and l = "''b2''", THEN conjunct1] i seg later
    by blast
  then show ?thesis
    using i nested_segments nested_later by simp
qed

lemma two_line_check:
  "check_beta_series two_line_fs two_line_path min_size [] =
     (Inr False, [''At least 3 trials are needed for a beta series: A has 2''])"
  by code_simp

lemma two_line_run:
  "heap (snd (check_bs_len two_line_fs 0 (state_of [two_line_path]))) 0 = []
   \<and> log (snd (check_bs_len two_line_fs 0 (state_of [two_line_path])))
       = [''At least 3 trials are needed for a beta series: A has 2'']"
  by code_simp

text \<open>
  The statement without the amendment takes the last segment of the path whatever the
  path contains. The file \<open>desc-A_\<close>, newline, \<open>desc-B_.nii\<close> is an image with 2
  trials whose path has a segment on each of its two lines. The last segment is
  \<open>desc-B_\<close> on the second line, and the warning of the exclusion reports the label
  \<open>A\<close> of the first line.
\<close>

theorem label_from_earlier_line_counterexample:
  "two_line_path = ''desc-A_'' @ [CHR 0x0A] @ ''desc-B_.nii''
   \<and> two_line_fs two_line_path = Some [64, 64, 30, 2]
   \<and> is_segment (drop 0 two_line_path) ''A''
   \<and> is_segment (drop 8 two_line_path) ''B''
   \<and> re_match_trial_type two_line_path = Some ''A''
   \<and> check_beta_series two_line_fs two_line_path min_size [] =
       (Inr False, [''At least 3 trials are needed for a beta series: A has 2''])
   \<and> heap (snd (check_bs_len two_line_fs 0 (state_of [two_line_path]))) 0 = []
   \<and> log (snd (check_bs_len two_line_fs 0 (state_of [two_line_path])))
       = [''At least 3 trials are needed for a beta series: A has 2'']"
proof -
  have p: "two_line_path = ''desc-A_'' @ [CHR 0x0A] @ ''desc-B_.nii''"
    by (simp add: two_line_path_def newline_def)
  have f: "two_line_fs two_line_path = Some [64, 64, 30, 2]"
    by (simp add: two_line_fs_def)
  show ?thesis
    using p f two_line_segments two_line_label two_line_check two_line_run
    by (intro conjI) simp_all
qed

section \<open>The graph that \<open>init_single_subject_wf\<close> builds\<close>

lemma wf_nodes_connect1:
  "wf_nodes (connect1 src dst pairs flow) = add_node dst (add_node src (wf_nodes flow))"
  by (simp add: connect1_def)

lemma wf_edges_connect1:
  "wf_edges (connect1 src dst pairs flow) =
     wf_edges flow @ map (\<lambda>(sf, df). (src, sf, dst, df)) pairs"
  by (simp add: connect1_def)

lemma wf_nodes_connect:
  "wf_nodes (connect cs flow) =
     foldl (\<lambda>ns (src, dst, pairs). add_node dst (add_node src ns)) (wf_nodes flow) cs"
  by (induction cs flow rule: connect.induct) (simp_all add: wf_nodes_connect1)

lemma wf_edges_connect:
  "wf_edges (connect cs flow) =
     wf_edges flow
     @ concat (map (\<lambda>(src, dst, pairs). map (\<lambda>(sf, df). (src, sf, dst, df)) pairs) cs)"
  by (induction cs flow rule: connect.induct) (simp_all add: wf_edges_connect1)

lemma add_node_old: "n \<in> set ns \<Longrightarrow> add_node n ns = ns"
  by (simp add: add_node_def)

lemma add_node_new: "n \<notin> set ns \<Longrightarrow> add_node n ns = ns @ [n]"
  by (simp add: add_node_def)

lemma wf_nodes_cases:
  "wf_nodes (init_single_subject_wf a l rr) =
     [input_node, betaseries_wf, output_node, ds_betaseries_file]
     @ (if truthy a \<and> truthy l
        then [censor_volumes, check_beta_series_list, correlation_wf,
              ds_correlation_matrix, ds_correlation_fig] else [])
     @ (if rr then [ds_residual_file] else [])"
proof (cases "truthy a \<and> truthy l")
  case both: True
  show ?thesis
  proof (cases rr)
    case True
    with both show ?thesis
      by (simp add: init_single_subject_wf_def Let_def wf_nodes_connect add_node_old add_node_new del: connect.simps)
  next
    case False
    with both show ?thesis
      by (simp add: init_single_subject_wf_def Let_def wf_nodes_connect add_node_old add_node_new del: connect.simps)
  qed
next
  case neither: False
  show ?thesis
  proof (cases rr)
    case True
    with neither show ?thesis
      by (simp add: init_single_subject_wf_def Let_def wf_nodes_connect add_node_old add_node_new del: connect.simps)
  next
    case False
    with neither show ?thesis
      by (simp add: init_single_subject_wf_def Let_def wf_nodes_connect add_node_old add_node_new del: connect.simps)
  qed
qed

lemma wf_edges_cases:
  "wf_edges (init_single_subject_wf a l rr) =
     [(input_node, ''preproc_img'', betaseries_wf, ''input_node.bold_file''),
      (input_node, ''events_tsv'', betaseries_wf, ''input_node.events_file''),
      (input_node, ''brainmask'', betaseries_wf, ''input_node.bold_mask_file''),
      (input_node, ''confound_tsv'', betaseries_wf, ''input_node.confounds_file''),
      (input_node, ''bold_metadata'', betaseries_wf, ''input_node.bold_metadata''),
      (betaseries_wf, ''output_node.betaseries_files'', output_node, ''betaseries_file''),
      (input_node, ''preproc_img'', ds_betaseries_file, ''source_file''),
      (output_node, ''betaseries_file'', ds_betaseries_file, ''in_file'')]
     @ (if truthy a \<and> truthy l
        then [(input_node, ''brainmask'', censor_volumes, ''mask_file''),
              (betaseries_wf, ''output_node.betaseries_files'', censor_volumes,
               ''timeseries_file''),
              (censor_volumes, ''censored_file'', check_beta_series_list, ''beta_series_list''),
              (check_beta_series_list, ''beta_series_list'', correlation_wf,
               ''input_node.betaseries_files''),
              (input_node, ''atlas_img'', correlation_wf, ''input_node.atlas_file''),
              (input_node, ''atlas_lut'', correlation_wf, ''input_node.atlas_lut''),
              (correlation_wf, ''output_node.correlation_matrix'', output_node,
               ''correlation_matrix''),
              (correlation_wf, ''output_node.correlation_fig'', output_node,
               ''correlation_fig''),
              (input_node, ''preproc_img'', ds_correlation_matrix, ''source_file''),
              (output_node, ''correlation_matrix'', ds_correlation_matrix, ''in_file''),
              (input_node, ''preproc_img'', ds_correlation_fig, ''source_file''),
              (output_node, ''correlation_fig'', ds_correlation_fig, ''in_file'')]
        else [])
     @ (if rr
        then [(betaseries_wf, ''output_node.residual_file'', output_node, ''residual_file''),
              (output_node, ''residual_file'', ds_residual_file, ''in_file''),
              (input_node, ''preproc_img'', ds_residual_file, ''source_file'')]
        else [])"
proof (cases "truthy a \<and> truthy l")
  case both: True
  show ?thesis
  proof (cases rr)
    case True
    with both show ?thesis
      by (simp add: init_single_subject_wf_def Let_def wf_edges_connect del: connect.simps)
  next
    case False
    with both show ?thesis
      by (simp add: init_single_subject_wf_def Let_def wf_edges_connect del: connect.simps)
  qed
next
  case neither: False
  show ?thesis
  proof (cases rr)
    case True
    with neither show ?thesis
      by (simp add: init_single_subject_wf_def Let_def wf_edges_connect del: connect.simps)
  next
    case False
    with neither show ?thesis
      by (simp add: init_single_subject_wf_def Let_def wf_edges_connect del: connect.simps)
  qed
qed

lemma wf_inputs_connect1:
  "wf_inputs (connect1 src dst pairs flow) = wf_inputs flow"
  by (simp add: connect1_def)

lemma wf_inputs_connect: "wf_inputs (connect cs flow) = wf_inputs flow"
  by (induction cs flow rule: connect.induct) (simp_all add: wf_inputs_connect1)

lemma wf_inputs_cases:
  "wf_inputs (init_single_subject_wf a l rr) =
     (if truthy a \<and> truthy l
      then [(input_node, ''atlas_img'', a), (input_node, ''atlas_lut'', l)] else [])"
  by (simp add: init_single_subject_wf_def Let_def wf_inputs_connect del: connect.simps)

text \<open>
  C4, amended. The censoring node and the count-filter node are constructed exactly
  when both \<open>atlas_img\<close> and \<open>atlas_lut\<close> are given, that is, when both are true
  for the test \<open>if atlas_img and atlas_lut\<close>: neither \<open>None\<close> nor the empty string.
  The correlation sub-graph and the two sinks for the correlation matrix and the
  correlation figure are constructed in every call. All five belong to the workflow
  that is returned, and are connected, exactly when both are given: then the beta
  series go through the censoring node and the count filter into the correlation
  sub-graph, whose two outputs reach the two sinks through the output node, and the two
  atlas inputs are set on the input node. When both are absent the returned workflow
  consists of the input node, the beta-series sub-graph, the output node and the
  beta-series sink, with the residual sink when it is asked for: it holds no
  correlation output and no censoring step.
\<close>

theorem atlas_branch_connected_iff_both_atlas_inputs:
  "(let flow = init_single_subject_wf atlas_img atlas_lut return_residuals;
        built = built_nodes atlas_img atlas_lut return_residuals;
        both = (truthy atlas_img \<and> truthy atlas_lut)
    in is_built censor_volumes built = both
     \<and> is_built check_beta_series_list built = both
     \<and> is_built correlation_wf built
     \<and> is_built ds_correlation_matrix built
     \<and> is_built ds_correlation_fig built
     \<and> in_workflow censor_volumes flow = both
     \<and> in_workflow check_beta_series_list flow = both
     \<and> in_workflow correlation_wf flow = both
     \<and> in_workflow ds_correlation_matrix flow = both
     \<and> in_workflow ds_correlation_fig flow = both
     \<and> connected censor_volumes flow = both
     \<and> connected check_beta_series_list flow = both
     \<and> connected correlation_wf flow = both
     \<and> connected ds_correlation_matrix flow = both
     \<and> connected ds_correlation_fig flow = both
     \<and> has_edge (input_node, ''brainmask'', censor_volumes, ''mask_file'') flow = both
     \<and> has_edge (betaseries_wf, ''output_node.betaseries_files'',
                  censor_volumes, ''timeseries_file'') flow = both
     \<and> has_edge (censor_volumes, ''censored_file'',
                  check_beta_series_list, ''beta_series_list'') flow = both
     \<and> has_edge (check_beta_series_list, ''beta_series_list'',
                  correlation_wf, ''input_node.betaseries_files'') flow = both
     \<and> has_edge (input_node, ''atlas_img'',
                  correlation_wf, ''input_node.atlas_file'') flow = both
     \<and> has_edge (input_node, ''atlas_lut'',
                  correlation_wf, ''input_node.atlas_lut'') flow = both
     \<and> has_edge (correlation_wf, ''output_node.correlation_matrix'',
                  output_node, ''correlation_matrix'') flow = both
     \<and> has_edge (correlation_wf, ''output_node.correlation_fig'',
                  output_node, ''correlation_fig'') flow = both
     \<and> has_edge (input_node, ''preproc_img'',
                  ds_correlation_matrix, ''source_file'') flow = both
     \<and> has_edge (output_node, ''correlation_matrix'',
                  ds_correlation_matrix, ''in_file'') flow = both
     \<and> has_edge (input_node, ''preproc_img'',
                  ds_correlation_fig, ''source_file'') flow = both
     \<and> has_edge (output_node, ''correlation_fig'',
                  ds_correlation_fig, ''in_file'') flow = both
     \<and> wf_inputs flow =
         (if both then [(input_node, ''atlas_img'', atlas_img),
                        (input_node, ''atlas_lut'', atlas_lut)] else []))
   \<and> wf_nodes (init_single_subject_wf None None return_residuals) =
       [input_node, betaseries_wf, output_node, ds_betaseries_file]
       @ (if return_residuals then [ds_residual_file] else [])
   \<and> truthy None = False
   \<and> truthy (Some s) = (s \<noteq> [])"
proof (cases "truthy atlas_img \<and> truthy atlas_lut")
  case True
  then show ?thesis
    by (simp add: Let_def in_workflow_def connected_def has_edge_def is_built_def
          built_nodes_def wf_nodes_cases wf_edges_cases wf_inputs_cases)
      (simp add: truthy_def)
next
  case False
  then show ?thesis
    by (simp add: Let_def in_workflow_def connected_def has_edge_def is_built_def
          built_nodes_def wf_nodes_cases wf_edges_cases wf_inputs_cases)
      (simp add: truthy_def)
qed

theorem atlas_branch_connected_iff_both_atlas_inputs_witness:
  "in_workflow censor_volumes
     (init_single_subject_wf (Some ''atlas.nii.gz'') (Some ''atlas.tsv'') False)
   \<and> is_built censor_volumes
     (built_nodes (Some ''atlas.nii.gz'') (Some ''atlas.tsv'') False)
   \<and> in_workflow ds_correlation_matrix
     (init_single_subject_wf (Some ''atlas.nii.gz'') (Some ''atlas.tsv'') False)
   \<and> \<not> in_workflow censor_volumes (init_single_subject_wf None None False)
   \<and> \<not> is_built censor_volumes (built_nodes None None False)
   \<and> \<not> in_workflow ds_correlation_matrix (init_single_subject_wf (Some []) (Some []) False)
   \<and> \<not> in_workflow ds_correlation_fig
     (init_single_subject_wf (Some ''atlas.nii.gz'') None False)"
  using atlas_branch_connected_iff_both_atlas_inputs
      [where atlas_img = "Some ''atlas.nii.gz''" and atlas_lut = "Some ''atlas.tsv''"
         and return_residuals = False]
    atlas_branch_connected_iff_both_atlas_inputs
      [where atlas_img = None and atlas_lut = None and return_residuals = False]
    atlas_branch_connected_iff_both_atlas_inputs
      [where atlas_img = "Some []" and atlas_lut = "Some []" and return_residuals = False]
    atlas_branch_connected_iff_both_atlas_inputs
      [where atlas_img = "Some ''atlas.nii.gz''" and atlas_lut = None
         and return_residuals = False]
  by (simp add: Let_def truthy_def)

text \<open>
  The statement without the amendment says that the correlation sub-graph and the two
  correlation sinks are created only when both atlas inputs are given. With both
  absent the three node objects are constructed all the same; they are left out of the
  returned workflow.
\<close>

theorem correlation_nodes_are_built_without_atlas_counterexample:
  "truthy None = False
   \<and> is_built correlation_wf (built_nodes None None False)
   \<and> is_built ds_correlation_matrix (built_nodes None None False)
   \<and> is_built ds_correlation_fig (built_nodes None None False)
   \<and> \<not> in_workflow correlation_wf (init_single_subject_wf None None False)
   \<and> \<not> in_workflow ds_correlation_matrix (init_single_subject_wf None None False)
   \<and> \<not> in_workflow ds_correlation_fig (init_single_subject_wf None None False)"
  by (simp add: truthy_def is_built_def built_nodes_def in_workflow_def wf_nodes_cases)

text \<open>
  C7. The residual sink is part of the workflow, and the residual output of the
  beta-series sub-graph is routed through the output node into it, tagged with the
  preprocessed image as its source, exactly when \<open>return_residuals\<close> is set. When the
  flag is false there is no residual sink.
\<close>

theorem residual_sink_iff_return_residuals:
  "(let flow = init_single_subject_wf atlas_img atlas_lut return_residuals
    in in_workflow ds_residual_file flow = return_residuals
     \<and> connected ds_residual_file flow = return_residuals
     \<and> has_edge (betaseries_wf, ''output_node.residual_file'',
                  output_node, ''residual_file'') flow = return_residuals
     \<and> has_edge (output_node, ''residual_file'',
                  ds_residual_file, ''in_file'') flow = return_residuals
     \<and> has_edge (input_node, ''preproc_img'',
                  ds_residual_file, ''source_file'') flow = return_residuals)"
proof (cases return_residuals)
  case True
  then show ?thesis
    by (simp add: Let_def in_workflow_def connected_def has_edge_def
          wf_nodes_cases wf_edges_cases)
next
  case False
  then show ?thesis
    by (simp add: Let_def in_workflow_def connected_def has_edge_def
          wf_nodes_cases wf_edges_cases)
qed

theorem residual_sink_iff_return_residuals_witness:
  "in_workflow ds_residual_file (init_single_subject_wf None None True)
   \<and> has_edge (output_node, ''residual_file'', ds_residual_file, ''in_file'')
       (init_single_subject_wf None None True)
   \<and> \<not> in_workflow ds_residual_file (init_single_subject_wf None None False)
   \<and> \<not> connected ds_residual_file
       (init_single_subject_wf (Some ''atlas.nii.gz'') (Some ''atlas.tsv'') False)"
  using residual_sink_iff_return_residuals
      [where atlas_img = None and atlas_lut = None and return_residuals = True]
    residual_sink_iff_return_residuals
      [where atlas_img = None and atlas_lut = None and return_residuals = False]
    residual_sink_iff_return_residuals
      [where atlas_img = "Some ''atlas.nii.gz''" and atlas_lut = "Some ''atlas.tsv''"
         and return_residuals = False]
  by (simp add: Let_def)

end
